theory Spec2Isabelle
  imports Main "HOL-Library.Word"
begin

section \<open>Platform layer of the VL53L5CX driver: \<open>platform.h\<close>, \<open>wrap.h\<close>, \<open>fake/stdint.h\<close>\<close>

type_synonym byte = "8 word"

subsection \<open>Fixed-width integers: \<open>fake/stdint.h\<close>\<close>

text \<open>
  The header names five basic C types and asserts their sizes. The size of a basic type
  is a property of the target, so the target enters as a parameter: an \<open>abi\<close> gives
  \<open>sizeof\<close> of each basic type, in bytes of 8 bits.
\<close>

datatype c_base = SignedChar | Short | UnsignedChar | UnsignedShort | UnsignedInt

datatype stdint_t = int8_t | int16_t | uint8_t | uint16_t | uint32_t

type_synonym abi = "c_base \<Rightarrow> nat"

fun typedef_base :: "stdint_t \<Rightarrow> c_base" where
  "typedef_base int8_t = SignedChar"
| "typedef_base int16_t = Short"
| "typedef_base uint8_t = UnsignedChar"
| "typedef_base uint16_t = UnsignedShort"
| "typedef_base uint32_t = UnsignedInt"

definition sizeof :: "abi \<Rightarrow> stdint_t \<Rightarrow> nat" where
  "sizeof abi t = abi (typedef_base t)"

definition bits :: "abi \<Rightarrow> stdint_t \<Rightarrow> nat" where
  "bits abi t = 8 * sizeof abi t"

datatype build_error = StaticAssertFailed string

text \<open>The five \<^verbatim>\<open>_Static_assert(sizeof(t) == n, msg)\<close> lines, in the order of the header.\<close>

definition static_asserts :: "(stdint_t \<times> nat \<times> string) list" where
  "static_asserts =
     [(int8_t, 1, ''int8_t wrong size''),
      (int16_t, 2, ''int16_t wrong size''),
      (uint8_t, 1, ''uint8_t wrong size''),
      (uint16_t, 2, ''uint16_t wrong size''),
      (uint32_t, 4, ''uint32_t wrong size'')]"

text \<open>Translating the header: the first assertion that does not hold stops the build.\<close>

fun check_asserts :: "abi \<Rightarrow> (stdint_t \<times> nat \<times> string) list \<Rightarrow> build_error + unit" where
  "check_asserts abi [] = Inr ()"
| "check_asserts abi ((t, n, msg) # rest) =
     (if sizeof abi t = n then check_asserts abi rest else Inl (StaticAssertFailed msg))"

definition compile_stdint_h :: "abi \<Rightarrow> build_error + unit" where
  "compile_stdint_h abi = check_asserts abi static_asserts"

text \<open>
  Two targets to evaluate on: the ILP32 data model of the 32-bit RISC-V target that the
  header's comment names, and a target whose \<open>int\<close> has 16 bits.
\<close>

fun riscv32_ilp32 :: abi where
  "riscv32_ilp32 SignedChar = 1"
| "riscv32_ilp32 Short = 2"
| "riscv32_ilp32 UnsignedChar = 1"
| "riscv32_ilp32 UnsignedShort = 2"
| "riscv32_ilp32 UnsignedInt = 4"

fun int16_target :: abi where
  "int16_target SignedChar = 1"
| "int16_target Short = 2"
| "int16_target UnsignedChar = 1"
| "int16_target UnsignedShort = 2"
| "int16_target UnsignedInt = 2"

subsection \<open>The platform handle: \<open>platform.h\<close>\<close>

text \<open>
  \<^verbatim>\<open>typedef struct { _Alignas(8) uint8_t _[20]; } VL53L5CX_Platform;\<close>
  A member declaration is an array of a fixed-width type with an optional alignment
  specifier (a scalar member is an array of one). The size of the struct is computed the
  way C lays structs out: each member at the next offset that is a multiple of its
  alignment, the whole padded to a multiple of the largest member alignment. A scalar
  is aligned to its size, and \<^verbatim>\<open>_Alignas\<close> can only raise an alignment.
\<close>

record member_decl =
  m_alignas :: "nat option"
  m_elem :: stdint_t
  m_count :: nat

definition round_up :: "nat \<Rightarrow> nat \<Rightarrow> nat" where
  "round_up n a = ((n + a - 1) div a) * a"

definition member_align :: "abi \<Rightarrow> member_decl \<Rightarrow> nat" where
  "member_align abi m =
     (case m_alignas m of None \<Rightarrow> sizeof abi (m_elem m)
      | Some a \<Rightarrow> max a (sizeof abi (m_elem m)))"

definition member_size :: "abi \<Rightarrow> member_decl \<Rightarrow> nat" where
  "member_size abi m = sizeof abi (m_elem m) * m_count m"

fun members_end :: "abi \<Rightarrow> nat \<Rightarrow> member_decl list \<Rightarrow> nat" where
  "members_end abi off [] = off"
| "members_end abi off (m # ms) =
     members_end abi (round_up off (member_align abi m) + member_size abi m) ms"

definition struct_alignof :: "abi \<Rightarrow> member_decl list \<Rightarrow> nat" where
  "struct_alignof abi ms = fold max (map (member_align abi) ms) 1"

definition struct_sizeof :: "abi \<Rightarrow> member_decl list \<Rightarrow> nat" where
  "struct_sizeof abi ms = round_up (members_end abi 0 ms) (struct_alignof abi ms)"

definition VL53L5CX_Platform :: "member_decl list" where
  "VL53L5CX_Platform = [\<lparr>m_alignas = Some 8, m_elem = uint8_t, m_count = 20\<rparr>]"

text \<open>
  A platform state of the application, given by its size and its alignment, fits the
  handle when neither exceeds the handle's.
\<close>

definition state_fits :: "abi \<Rightarrow> nat \<Rightarrow> nat \<Rightarrow> bool" where
  "state_fits abi state_size state_align =
     (state_size \<le> struct_sizeof abi VL53L5CX_Platform \<and>
      state_align \<le> struct_alignof abi VL53L5CX_Platform)"

text \<open>Modelled from the spec: the check that the application's own platform state fits
  the handle is not in \<open>platform.h\<close> (its comment only says that the space "can be
  checked automatically ('sizeof')"). The spec asks that the size of the concrete state
  does not exceed the reserved capacity and that its alignment does not exceed 8,
  checked at build time, a violation being a build failure. The check is a step of the
  build, beside the static assertions of \<open>stdint.h\<close>.
\<close>

definition check_platform_state :: "abi \<Rightarrow> nat \<Rightarrow> nat \<Rightarrow> build_error + unit" where
  "check_platform_state abi state_size state_align =
     (if state_fits abi state_size state_align then Inr ()
      else Inl (StaticAssertFailed ''platform state does not fit VL53L5CX_Platform''))"

subsection \<open>The six callbacks: \<open>platform.h\<close>\<close>

datatype c_type = TVoid | TInt stdint_t | TPlatform | TPtr c_type

record prototype =
  fn_name :: string
  ret :: c_type
  params :: "(string \<times> c_type) list"

definition platform_h :: "prototype list" where
  "platform_h =
     [\<lparr>fn_name = ''VL53L5CX_RdByte'', ret = TInt uint8_t,
       params = [(''p_platform'', TPtr TPlatform), (''addr'', TInt uint16_t),
                 (''p_out'', TPtr (TInt uint8_t))]\<rparr>,
      \<lparr>fn_name = ''VL53L5CX_WrByte'', ret = TInt uint8_t,
       params = [(''p_platform'', TPtr TPlatform), (''addr'', TInt uint16_t),
                 (''value'', TInt uint8_t)]\<rparr>,
      \<lparr>fn_name = ''VL53L5CX_RdMulti'', ret = TInt uint8_t,
       params = [(''p_platform'', TPtr TPlatform), (''addr'', TInt uint16_t),
                 (''p_out'', TPtr (TInt uint8_t)), (''size'', TInt uint32_t)]\<rparr>,
      \<lparr>fn_name = ''VL53L5CX_WrMulti'', ret = TInt uint8_t,
       params = [(''p_platform'', TPtr TPlatform), (''addr'', TInt uint16_t),
                 (''p_values'', TPtr (TInt uint8_t)), (''size'', TInt uint32_t)]\<rparr>,
      \<lparr>fn_name = ''VL53L5CX_SwapBuffer'', ret = TVoid,
       params = [(''buffer'', TPtr (TInt uint8_t)), (''size'', TInt uint16_t)]\<rparr>,
      \<lparr>fn_name = ''VL53L5CX_WaitMs'', ret = TInt uint8_t,
       params = [(''p_platform'', TPtr TPlatform), (''ms'', TInt uint32_t)]\<rparr>]"

definition handle_callbacks :: "string list" where
  "handle_callbacks =
     [''VL53L5CX_RdByte'', ''VL53L5CX_WrByte'', ''VL53L5CX_RdMulti'', ''VL53L5CX_WrMulti'',
      ''VL53L5CX_WaitMs'']"

subsection \<open>Constants and enums: \<open>wrap.h\<close>\<close>

text \<open>
  \<open>wrap.h\<close> gives names to macros of the vendor header \<open>vl53l5cx_api.h\<close>, each of the
  form \<^verbatim>\<open>((uint8_t) nU)\<close>. The vendor header is a parameter of the model.
\<close>

record vendor_macros =
  VL53L5CX_RESOLUTION_4X4 :: byte
  VL53L5CX_RESOLUTION_8X8 :: byte
  VL53L5CX_TARGET_ORDER_CLOSEST :: byte
  VL53L5CX_TARGET_ORDER_STRONGEST :: byte
  VL53L5CX_RANGING_MODE_CONTINUOUS :: byte
  VL53L5CX_RANGING_MODE_AUTONOMOUS :: byte
  VL53L5CX_POWER_MODE_SLEEP :: byte
  VL53L5CX_POWER_MODE_WAKEUP :: byte
  VL53L5CX_STATUS_OK :: byte
  VL53L5CX_STATUS_ERROR :: byte
  VL53L5CX_STATUS_INVALID_PARAM :: byte

text \<open>Modelled from the spec: the vendor header \<open>vl53l5cx_api.h\<close> is not among the sources.
  Its values are those the spec gives (resolution 16 or 64; status 0, 255, 127), which
  are also the values the comments of \<open>wrap.h\<close> note beside each line.
\<close>

definition vl53l5cx_api_h :: vendor_macros where
  "vl53l5cx_api_h =
     \<lparr>VL53L5CX_RESOLUTION_4X4 = 16, VL53L5CX_RESOLUTION_8X8 = 64,
      VL53L5CX_TARGET_ORDER_CLOSEST = 1, VL53L5CX_TARGET_ORDER_STRONGEST = 2,
      VL53L5CX_RANGING_MODE_CONTINUOUS = 1, VL53L5CX_RANGING_MODE_AUTONOMOUS = 3,
      VL53L5CX_POWER_MODE_SLEEP = 0, VL53L5CX_POWER_MODE_WAKEUP = 1,
      VL53L5CX_STATUS_OK = 0, VL53L5CX_STATUS_ERROR = 255,
      VL53L5CX_STATUS_INVALID_PARAM = 127\<rparr>"

text \<open>
  The enumerators \<open>_4X4\<close> and \<open>_8X8\<close> are written \<open>Res_4X4\<close> and \<open>Res_8X8\<close>: a name
  cannot start with an underscore here. An enumeration constant of C has type \<open>int\<close>.
\<close>

datatype Resolution = Res_4X4 | Res_8X8

datatype TargetOrder = CLOSEST | STRONGEST

datatype RangingMode = CONTINUOUS | AUTONOMOUS

datatype PowerMode = SLEEP | WAKEUP

fun Resolution_value :: "vendor_macros \<Rightarrow> Resolution \<Rightarrow> int" where
  "Resolution_value v Res_4X4 = uint (VL53L5CX_RESOLUTION_4X4 v)"
| "Resolution_value v Res_8X8 = uint (VL53L5CX_RESOLUTION_8X8 v)"

fun TargetOrder_value :: "vendor_macros \<Rightarrow> TargetOrder \<Rightarrow> int" where
  "TargetOrder_value v CLOSEST = uint (VL53L5CX_TARGET_ORDER_CLOSEST v)"
| "TargetOrder_value v STRONGEST = uint (VL53L5CX_TARGET_ORDER_STRONGEST v)"

fun RangingMode_value :: "vendor_macros \<Rightarrow> RangingMode \<Rightarrow> int" where
  "RangingMode_value v CONTINUOUS = uint (VL53L5CX_RANGING_MODE_CONTINUOUS v)"
| "RangingMode_value v AUTONOMOUS = uint (VL53L5CX_RANGING_MODE_AUTONOMOUS v)"

fun PowerMode_value :: "vendor_macros \<Rightarrow> PowerMode \<Rightarrow> int" where
  "PowerMode_value v SLEEP = uint (VL53L5CX_POWER_MODE_SLEEP v)"
| "PowerMode_value v WAKEUP = uint (VL53L5CX_POWER_MODE_WAKEUP v)"

text \<open>
  The \<^verbatim>\<open>const uint8_t\<close> declarations of \<open>wrap.h\<close> that are not commented out, in
  the order of the header. The lines under "not passed" (\<open>ST_TIMEOUT_ERROR\<close> to
  \<open>INVALID_PARAM\<close>) are comments and declare nothing.
\<close>

definition wrap_h_consts :: "vendor_macros \<Rightarrow> (string \<times> byte) list" where
  "wrap_h_consts v =
     [(''ST_OK'', VL53L5CX_STATUS_OK v),
      (''ST_ERROR'', VL53L5CX_STATUS_ERROR v)]"

subsection \<open>Buffer swap\<close>

text \<open>Modelled from the spec: \<open>platform.h\<close> only declares
  \<^verbatim>\<open>void VL53L5CX_SwapBuffer(uint8_t *buffer, uint16_t size)\<close>; its body is not among
  the sources. The header documents it as "swap the order of bytes, within the buffer,
  such that for each 4-byte group: ABCD -> DCBA", with \<open>size\<close> the number of bytes to
  swap, a multiple of 4. The buffer is the list of bytes behind the pointer; the result
  is the buffer after the call. The first \<open>size\<close> bytes are processed group by group,
  the bytes behind them are not visited. What happens to an incomplete last group is
  left open by the contract; here it is left as it is.
\<close>

fun swap_groups :: "byte list \<Rightarrow> byte list" where
  "swap_groups (a # b # c # d # rest) = d # c # b # a # swap_groups rest"
| "swap_groups xs = xs"

definition VL53L5CX_SwapBuffer :: "byte list \<Rightarrow> 16 word \<Rightarrow> byte list" where
  "VL53L5CX_SwapBuffer buffer sz =
     swap_groups (take (unat sz) buffer) @ drop (unat sz) buffer"

subsection \<open>Multi-byte transfers\<close>

text \<open>Modelled from the spec: \<open>platform.h\<close> only declares \<open>VL53L5CX_RdMulti\<close> and
  \<open>VL53L5CX_WrMulti\<close>; their bodies are not among the sources. The spec asks that
  read-multiple "reads exactly \<open>size\<close> bytes starting at \<open>address\<close> into the
  caller-supplied buffer", that write-multiple "writes exactly \<open>size\<close> bytes from the
  caller-supplied buffer", and that a failure of the transport is returned as status 255,
  success as 0. The transport is a parameter: a function that moves one byte to or from
  a register address and may fail, over a platform state \<open>'p\<close> of its own. The transfer
  is a loop over the \<open>size\<close> bytes, from index 0, that stops at the first failure. The
  read returns the platform state, the buffer and the status; the write returns the
  platform state and the status, its buffer being only read.
\<close>

type_synonym 'p rd_byte = "'p \<Rightarrow> 16 word \<Rightarrow> ('p \<times> byte) option"
type_synonym 'p wr_byte = "'p \<Rightarrow> 16 word \<Rightarrow> byte \<Rightarrow> 'p option"

fun rd_loop :: "'p rd_byte \<Rightarrow> nat \<Rightarrow> nat \<Rightarrow> 'p \<Rightarrow> 16 word \<Rightarrow> byte list \<Rightarrow> 'p \<times> byte list \<times> byte" where
  "rd_loop rd 0 i p addr out = (p, out, 0)"
| "rd_loop rd (Suc n) i p addr out =
     (case rd p addr of
        None \<Rightarrow> (p, out, 255)
      | Some (p', b) \<Rightarrow> rd_loop rd n (Suc i) p' (addr + 1) (out[i := b]))"

definition VL53L5CX_RdMulti ::
  "'p rd_byte \<Rightarrow> 'p \<Rightarrow> 16 word \<Rightarrow> byte list \<Rightarrow> 32 word \<Rightarrow> 'p \<times> byte list \<times> byte" where
  "VL53L5CX_RdMulti rd p_platform addr p_out sz = rd_loop rd (unat sz) 0 p_platform addr p_out"

fun wr_loop :: "'p wr_byte \<Rightarrow> nat \<Rightarrow> nat \<Rightarrow> 'p \<Rightarrow> 16 word \<Rightarrow> byte list \<Rightarrow> 'p \<times> byte" where
  "wr_loop wr 0 i p addr vals = (p, 0)"
| "wr_loop wr (Suc n) i p addr vals =
     (case wr p addr (vals ! i) of
        None \<Rightarrow> (p, 255)
      | Some p' \<Rightarrow> wr_loop wr n (Suc i) p' (addr + 1) vals)"

definition VL53L5CX_WrMulti ::
  "'p wr_byte \<Rightarrow> 'p \<Rightarrow> 16 word \<Rightarrow> byte list \<Rightarrow> 32 word \<Rightarrow> 'p \<times> byte" where
  "VL53L5CX_WrMulti wr p_platform addr p_values sz = wr_loop wr (unat sz) 0 p_platform addr p_values"


text \<open>
  Two transports to evaluate on: one that answers each read with the low byte of the
  register address and fails from the third read on, one that logs every byte written.
\<close>

definition echo_rd :: "nat rd_byte" where
  "echo_rd p addr = (if p < 2 then Some (Suc p, ucast addr) else None)"

definition log_wr :: "(byte list) wr_byte" where
  "log_wr p addr v = Some (p @ [v])"

subsection \<open>Wait\<close>

text \<open>Modelled from the spec: \<open>platform.h\<close> only declares \<open>VL53L5CX_WaitMs\<close>; its body is
  not among the sources. The header documents the status as "0 if wait is finished";
  the spec asks that the call "blocks the calling context for at least the requested
  duration" and "returns non-zero status if the wait could not be guaranteed to
  complete". The timer is a parameter: a function that lets one millisecond pass on the
  platform state and may fail. The wait is a loop over the \<open>ms\<close> milliseconds that stops
  at the first failure with status 255; it returns the platform state and the status.
  Time is read off the platform state by a clock, which the properties take as a
  parameter too.
\<close>

type_synonym 'p delay_1ms = "'p \<Rightarrow> 'p option"

fun wait_loop :: "'p delay_1ms \<Rightarrow> nat \<Rightarrow> 'p \<Rightarrow> 'p \<times> byte" where
  "wait_loop delay 0 p = (p, 0)"
| "wait_loop delay (Suc n) p =
     (case delay p of
        None \<Rightarrow> (p, 255)
      | Some p' \<Rightarrow> wait_loop delay n p')"

definition VL53L5CX_WaitMs :: "'p delay_1ms \<Rightarrow> 'p \<Rightarrow> 32 word \<Rightarrow> 'p \<times> byte" where
  "VL53L5CX_WaitMs delay p_platform ms = wait_loop delay (unat ms) p_platform"

text \<open>
  The number of milliseconds, out of the \<open>n\<close> asked for, that the timer completes from
  a platform state before its first failure. It follows the timer alone.
\<close>

fun ms_completed :: "'p delay_1ms \<Rightarrow> nat \<Rightarrow> 'p \<Rightarrow> nat" where
  "ms_completed delay 0 p = 0"
| "ms_completed delay (Suc n) p =
     (case delay p of
        None \<Rightarrow> 0
      | Some p' \<Rightarrow> Suc (ms_completed delay n p'))"

text \<open>
  Two timers to evaluate on, over a platform state that is the clock itself: one that
  takes 2 ms for each millisecond and fails once the clock has reached 5, one that
  always fails.
\<close>

definition worn_timer :: "nat delay_1ms" where
  "worn_timer t = (if t < 5 then Some (t + 2) else None)"

definition dead_timer :: "nat delay_1ms" where
  "dead_timer t = None"

section \<open>Properties\<close>

subsection \<open>Types, handle, prototypes and constants\<close>

lemma compile_stdint_h_iff:
  "compile_stdint_h abi = Inr () \<longleftrightarrow>
     sizeof abi int8_t = 1 \<and> sizeof abi int16_t = 2 \<and> sizeof abi uint8_t = 1 \<and>
     sizeof abi uint16_t = 2 \<and> sizeof abi uint32_t = 4"
  by (simp add: compile_stdint_h_def static_asserts_def)

text \<open>
  Claim C10. The header translates only on a target where the five typedefs have their
  nominal sizes (1, 2, 1, 2 and 4 bytes); on any other target a static assertion stops
  the build.
\<close>

theorem stdint_sizes_enforced:
  "(compile_stdint_h abi = Inr () \<longrightarrow>
      sizeof abi int8_t = 1 \<and> sizeof abi int16_t = 2 \<and> sizeof abi uint8_t = 1 \<and>
      sizeof abi uint16_t = 2 \<and> sizeof abi uint32_t = 4) \<and>
   (\<not> (sizeof abi int8_t = 1 \<and> sizeof abi int16_t = 2 \<and> sizeof abi uint8_t = 1 \<and>
       sizeof abi uint16_t = 2 \<and> sizeof abi uint32_t = 4) \<longrightarrow>
      (\<exists>msg. compile_stdint_h abi = Inl (StaticAssertFailed msg)))"
  by (simp add: compile_stdint_h_def static_asserts_def)

theorem stdint_sizes_enforced_witness:
  "compile_stdint_h riscv32_ilp32 = Inr () \<and>
   sizeof riscv32_ilp32 int8_t = 1 \<and> sizeof riscv32_ilp32 int16_t = 2 \<and>
   sizeof riscv32_ilp32 uint8_t = 1 \<and> sizeof riscv32_ilp32 uint16_t = 2 \<and>
   sizeof riscv32_ilp32 uint32_t = 4 \<and>
   sizeof int16_target uint32_t \<noteq> 4 \<and>
   compile_stdint_h int16_target = Inl (StaticAssertFailed ''uint32_t wrong size'')"
proof -
  have ok: "compile_stdint_h riscv32_ilp32 = Inr ()"
    by (simp add: compile_stdint_h_def static_asserts_def sizeof_def)
  have bad: "sizeof int16_target uint32_t \<noteq> 4"
    by (simp add: sizeof_def)
  have "compile_stdint_h int16_target = Inl (StaticAssertFailed ''uint32_t wrong size'')"
    by (simp add: compile_stdint_h_def static_asserts_def sizeof_def)
  with ok bad stdint_sizes_enforced [of riscv32_ilp32] stdint_sizes_enforced [of int16_target]
  show ?thesis
    by simp
qed

lemma platform_layout:
  assumes "compile_stdint_h abi = Inr ()"
  shows "members_end abi 0 VL53L5CX_Platform = 20"
    and "struct_alignof abi VL53L5CX_Platform = 8"
    and "struct_sizeof abi VL53L5CX_Platform = 24"
proof -
  from assms have u8: "sizeof abi uint8_t = 1"
    by (simp add: compile_stdint_h_iff)
  show e: "members_end abi 0 VL53L5CX_Platform = 20"
    by (simp add: VL53L5CX_Platform_def member_align_def member_size_def round_up_def u8)
  show a: "struct_alignof abi VL53L5CX_Platform = 8"
    by (simp add: VL53L5CX_Platform_def struct_alignof_def member_align_def u8)
  show "struct_sizeof abi VL53L5CX_Platform = 24"
    by (simp add: struct_sizeof_def e a round_up_def)
qed

text \<open>
  Claim C9. Where \<open>stdint.h\<close> translates, the 20-byte array aligned to 8 makes a struct
  of 24 bytes, the next multiple of 8 after 20, so that a platform state of up to 24
  bytes (alignment up to 8) fits the handle, and one of 25 bytes does not.
\<close>

theorem platform_padded_to_24:
  assumes "compile_stdint_h abi = Inr ()"
  shows "members_end abi 0 VL53L5CX_Platform = 20 \<and>
         struct_alignof abi VL53L5CX_Platform = 8 \<and>
         struct_sizeof abi VL53L5CX_Platform = 24 \<and>
         struct_sizeof abi VL53L5CX_Platform = round_up 20 8 \<and>
         (\<forall>n a. state_fits abi n a \<longleftrightarrow> n \<le> 24 \<and> a \<le> 8) \<and>
         state_fits abi 24 8 \<and> \<not> state_fits abi 25 8"
  using platform_layout [OF assms] by (simp add: state_fits_def round_up_def)

theorem platform_padded_to_24_witness:
  "compile_stdint_h riscv32_ilp32 = Inr () \<and>
   struct_sizeof riscv32_ilp32 VL53L5CX_Platform = 24 \<and>
   state_fits riscv32_ilp32 24 8 \<and> state_fits riscv32_ilp32 21 4 \<and>
   \<not> state_fits riscv32_ilp32 25 8"
proof -
  have ok: "compile_stdint_h riscv32_ilp32 = Inr ()"
    by (simp add: compile_stdint_h_def static_asserts_def sizeof_def)
  from platform_padded_to_24 [OF ok] ok show ?thesis
    by simp
qed

text \<open>
  Claim C1. Where \<open>stdint.h\<close> translates, the handle is a region of at least 20 bytes
  aligned to 8, and the check that a platform state fits it (size within the region,
  alignment at most 8) is a step of the build: it passes exactly for the states that
  fit, and a state that does not fit is a build error.
\<close>

theorem platform_handle_contract:
  assumes "compile_stdint_h abi = Inr ()"
  shows "20 \<le> struct_sizeof abi VL53L5CX_Platform \<and>
         struct_alignof abi VL53L5CX_Platform = 8 \<and>
         (\<forall>n a. check_platform_state abi n a = Inr () \<longleftrightarrow>
                  n \<le> struct_sizeof abi VL53L5CX_Platform \<and> a \<le> 8) \<and>
         (\<forall>n a. \<not> (n \<le> struct_sizeof abi VL53L5CX_Platform \<and> a \<le> 8) \<longrightarrow>
                  (\<exists>msg. check_platform_state abi n a = Inl (StaticAssertFailed msg)))"
  using platform_layout [OF assms] by (simp add: check_platform_state_def state_fits_def)

theorem platform_handle_contract_witness:
  "compile_stdint_h riscv32_ilp32 = Inr () \<and>
   20 \<le> struct_sizeof riscv32_ilp32 VL53L5CX_Platform \<and>
   struct_alignof riscv32_ilp32 VL53L5CX_Platform = 8 \<and>
   check_platform_state riscv32_ilp32 16 4 = Inr () \<and>
   check_platform_state riscv32_ilp32 32 8
     = Inl (StaticAssertFailed ''platform state does not fit VL53L5CX_Platform'')"
proof -
  have ok: "compile_stdint_h riscv32_ilp32 = Inr ()"
    by (simp add: compile_stdint_h_def static_asserts_def sizeof_def)
  have sz: "struct_sizeof riscv32_ilp32 VL53L5CX_Platform = 24"
    by (simp add: struct_sizeof_def struct_alignof_def VL53L5CX_Platform_def member_align_def
        member_size_def round_up_def sizeof_def)
  from platform_handle_contract [OF ok] ok sz show ?thesis
    by (simp add: check_platform_state_def state_fits_def)
qed

text \<open>
  Claim C6. In the six prototypes, every register address is a \<open>uint16_t\<close> (16 bits),
  the size of the two multi-byte transfers and the milliseconds argument are
  \<open>uint32_t\<close> (32 bits), and every status returned is a \<open>uint8_t\<close> (8 bits). The five
  callbacks other than the buffer swap take a pointer to the platform handle as first
  argument and return the status; the buffer swap takes no handle and returns nothing.
\<close>

theorem callback_signature_widths:
  assumes "compile_stdint_h abi = Inr ()"
  shows "map fn_name platform_h =
           [''VL53L5CX_RdByte'', ''VL53L5CX_WrByte'', ''VL53L5CX_RdMulti'', ''VL53L5CX_WrMulti'',
            ''VL53L5CX_SwapBuffer'', ''VL53L5CX_WaitMs''] \<and>
         (\<forall>f \<in> set platform_h.
            (\<forall>t. (''addr'', t) \<in> set (params f) \<longrightarrow> t = TInt uint16_t) \<and>
            (\<forall>t. (''ms'', t) \<in> set (params f) \<longrightarrow> t = TInt uint32_t) \<and>
            (fn_name f \<in> {''VL53L5CX_RdByte'', ''VL53L5CX_WrByte'', ''VL53L5CX_RdMulti'',
                           ''VL53L5CX_WrMulti''} \<longrightarrow>
               map_of (params f) ''addr'' = Some (TInt uint16_t)) \<and>
            (fn_name f \<in> {''VL53L5CX_RdMulti'', ''VL53L5CX_WrMulti''} \<longrightarrow>
               map_of (params f) ''size'' = Some (TInt uint32_t)) \<and>
            (fn_name f = ''VL53L5CX_WaitMs'' \<longrightarrow>
               map_of (params f) ''ms'' = Some (TInt uint32_t)) \<and>
            (fn_name f \<in> set handle_callbacks \<longrightarrow>
               ret f = TInt uint8_t \<and> hd (params f) = (''p_platform'', TPtr TPlatform)) \<and>
            (fn_name f = ''VL53L5CX_SwapBuffer'' \<longrightarrow>
               ret f = TVoid \<and> TPtr TPlatform \<notin> snd ` set (params f))) \<and>
         bits abi uint16_t = 16 \<and> bits abi uint32_t = 32 \<and> bits abi uint8_t = 8"
proof -
  from assms have "bits abi uint16_t = 16 \<and> bits abi uint32_t = 32 \<and> bits abi uint8_t = 8"
    by (simp add: compile_stdint_h_iff bits_def)
  moreover have "map fn_name platform_h =
           [''VL53L5CX_RdByte'', ''VL53L5CX_WrByte'', ''VL53L5CX_RdMulti'', ''VL53L5CX_WrMulti'',
            ''VL53L5CX_SwapBuffer'', ''VL53L5CX_WaitMs'']"
    by (simp add: platform_h_def)
  moreover have "\<forall>f \<in> set platform_h.
            (\<forall>t. (''addr'', t) \<in> set (params f) \<longrightarrow> t = TInt uint16_t) \<and>
            (\<forall>t. (''ms'', t) \<in> set (params f) \<longrightarrow> t = TInt uint32_t) \<and>
            (fn_name f \<in> {''VL53L5CX_RdByte'', ''VL53L5CX_WrByte'', ''VL53L5CX_RdMulti'',
                           ''VL53L5CX_WrMulti''} \<longrightarrow>
               map_of (params f) ''addr'' = Some (TInt uint16_t)) \<and>
            (fn_name f \<in> {''VL53L5CX_RdMulti'', ''VL53L5CX_WrMulti''} \<longrightarrow>
               map_of (params f) ''size'' = Some (TInt uint32_t)) \<and>
            (fn_name f = ''VL53L5CX_WaitMs'' \<longrightarrow>
               map_of (params f) ''ms'' = Some (TInt uint32_t)) \<and>
            (fn_name f \<in> set handle_callbacks \<longrightarrow>
               ret f = TInt uint8_t \<and> hd (params f) = (''p_platform'', TPtr TPlatform)) \<and>
            (fn_name f = ''VL53L5CX_SwapBuffer'' \<longrightarrow>
               ret f = TVoid \<and> TPtr TPlatform \<notin> snd ` set (params f))"
    by (simp add: platform_h_def handle_callbacks_def)
  ultimately show ?thesis
    by blast
qed

theorem callback_signature_widths_witness:
  "compile_stdint_h riscv32_ilp32 = Inr () \<and>
   bits riscv32_ilp32 uint16_t = 16 \<and> bits riscv32_ilp32 uint32_t = 32 \<and>
   bits riscv32_ilp32 uint8_t = 8 \<and>
   map_of (params (platform_h ! 2)) ''addr'' = Some (TInt uint16_t) \<and>
   map_of (params (platform_h ! 2)) ''size'' = Some (TInt uint32_t) \<and>
   ret (platform_h ! 2) = TInt uint8_t \<and>
   hd (params (platform_h ! 2)) = (''p_platform'', TPtr TPlatform) \<and>
   ret (platform_h ! 4) = TVoid"
proof -
  have ok: "compile_stdint_h riscv32_ilp32 = Inr ()"
    by (simp add: compile_stdint_h_def static_asserts_def sizeof_def)
  have m: "platform_h ! 2 \<in> set platform_h" "platform_h ! 4 \<in> set platform_h"
    by (simp_all add: platform_h_def)
  have n: "fn_name (platform_h ! 2) = ''VL53L5CX_RdMulti''"
    "fn_name (platform_h ! 4) = ''VL53L5CX_SwapBuffer''"
    by (simp_all add: platform_h_def)
  from callback_signature_widths [OF ok] ok m n show ?thesis
    by (simp add: handle_callbacks_def)
qed

text \<open>
  Claim C4, as stated, fails: \<open>wrap.h\<close> declares no constant \<open>INVALID_PARAM\<close> (the line
  is a comment under "not passed"), and no constant it declares has the value 127.
\<close>

theorem status_constants_all_exported_counterexample:
  "map_of (wrap_h_consts vl53l5cx_api_h) ''INVALID_PARAM'' = None \<and>
   127 \<notin> snd ` set (wrap_h_consts vl53l5cx_api_h) \<and>
   \<not> {0, 255, 127} \<subseteq> snd ` set (wrap_h_consts vl53l5cx_api_h)"
  by (simp add: wrap_h_consts_def vl53l5cx_api_h_def)

text \<open>
  Claim C4, amended. \<open>wrap.h\<close> declares exactly two status constants, \<open>ST_OK\<close> and
  \<open>ST_ERROR\<close>, with the values of the vendor's \<open>VL53L5CX_STATUS_OK\<close> and
  \<open>VL53L5CX_STATUS_ERROR\<close>, which are 0 and 255.
\<close>

theorem status_constants_exported:
  "map fst (wrap_h_consts v) = [''ST_OK'', ''ST_ERROR''] \<and>
   map_of (wrap_h_consts v) ''ST_OK'' = Some (VL53L5CX_STATUS_OK v) \<and>
   map_of (wrap_h_consts v) ''ST_ERROR'' = Some (VL53L5CX_STATUS_ERROR v) \<and>
   map_of (wrap_h_consts vl53l5cx_api_h) ''ST_OK'' = Some 0 \<and>
   map_of (wrap_h_consts vl53l5cx_api_h) ''ST_ERROR'' = Some 255"
  by (simp add: wrap_h_consts_def vl53l5cx_api_h_def)

text \<open>
  Claim C5. Every enumerator has the value of the vendor macro it is declared with; with
  the vendor's values, \<open>_4X4\<close> is 16 and \<open>_8X8\<close> is 64. Each enum has exactly its two
  enumerators, and every value fits 8 bits.
\<close>

theorem enum_values_match_vendor:
  "Resolution_value v Res_4X4 = uint (VL53L5CX_RESOLUTION_4X4 v) \<and>
   Resolution_value v Res_8X8 = uint (VL53L5CX_RESOLUTION_8X8 v) \<and>
   TargetOrder_value v CLOSEST = uint (VL53L5CX_TARGET_ORDER_CLOSEST v) \<and>
   TargetOrder_value v STRONGEST = uint (VL53L5CX_TARGET_ORDER_STRONGEST v) \<and>
   RangingMode_value v CONTINUOUS = uint (VL53L5CX_RANGING_MODE_CONTINUOUS v) \<and>
   RangingMode_value v AUTONOMOUS = uint (VL53L5CX_RANGING_MODE_AUTONOMOUS v) \<and>
   PowerMode_value v SLEEP = uint (VL53L5CX_POWER_MODE_SLEEP v) \<and>
   PowerMode_value v WAKEUP = uint (VL53L5CX_POWER_MODE_WAKEUP v) \<and>
   Resolution_value vl53l5cx_api_h Res_4X4 = 16 \<and>
   Resolution_value vl53l5cx_api_h Res_8X8 = 64 \<and>
   (UNIV :: Resolution set) = {Res_4X4, Res_8X8} \<and>
   (UNIV :: TargetOrder set) = {CLOSEST, STRONGEST} \<and>
   (UNIV :: RangingMode set) = {CONTINUOUS, AUTONOMOUS} \<and>
   (UNIV :: PowerMode set) = {SLEEP, WAKEUP} \<and>
   0 \<le> Resolution_value v r \<and> Resolution_value v r < 256 \<and>
   0 \<le> TargetOrder_value v t \<and> TargetOrder_value v t < 256 \<and>
   0 \<le> RangingMode_value v m \<and> RangingMode_value v m < 256 \<and>
   0 \<le> PowerMode_value v p \<and> PowerMode_value v p < 256"
proof -
  have b: "0 \<le> uint x \<and> uint x < 256" for x :: byte
    using uint_lt2p [of x] by simp
  have "(UNIV :: Resolution set) = {Res_4X4, Res_8X8}"
    using Resolution.exhaust by auto
  moreover have "(UNIV :: TargetOrder set) = {CLOSEST, STRONGEST}"
    using TargetOrder.exhaust by auto
  moreover have "(UNIV :: RangingMode set) = {CONTINUOUS, AUTONOMOUS}"
    using RangingMode.exhaust by auto
  moreover have "(UNIV :: PowerMode set) = {SLEEP, WAKEUP}"
    using PowerMode.exhaust by auto
  moreover have "0 \<le> Resolution_value v r \<and> Resolution_value v r < 256"
    by (cases r) (simp_all add: b)
  moreover have "0 \<le> TargetOrder_value v t \<and> TargetOrder_value v t < 256"
    by (cases t) (simp_all add: b)
  moreover have "0 \<le> RangingMode_value v m \<and> RangingMode_value v m < 256"
    by (cases m) (simp_all add: b)
  moreover have "0 \<le> PowerMode_value v p \<and> PowerMode_value v p < 256"
    by (cases p) (simp_all add: b)
  moreover have "Resolution_value vl53l5cx_api_h Res_4X4 = 16 \<and>
     Resolution_value vl53l5cx_api_h Res_8X8 = 64"
    by (simp add: vl53l5cx_api_h_def)
  ultimately show ?thesis
    by simp
qed

subsection \<open>Buffer swap\<close>

lemma length_swap_groups: "length (swap_groups xs) = length xs"
  by (induction xs rule: swap_groups.induct) simp_all

lemma swap_groups_twice: "swap_groups (swap_groups xs) = xs"
  by (induction xs rule: swap_groups.induct) simp_all

lemma length_SwapBuffer: "length (VL53L5CX_SwapBuffer buffer sz) = length buffer"
  by (simp add: VL53L5CX_SwapBuffer_def length_swap_groups)

lemma nth_skip_group: "(a # b # c # d # xs) ! (4 + k) = xs ! k"
  by (simp add: eval_nat_numeral)

lemma swap_groups_nth:
  "length xs mod 4 = 0 \<Longrightarrow> i < length xs \<Longrightarrow>
     swap_groups xs ! i = xs ! (4 * (i div 4) + (3 - i mod 4))"
proof (induction xs arbitrary: i rule: swap_groups.induct)
  case (1 a b c d rest)
  show ?case
  proof (cases "i < 4")
    case True
    then consider "i = 0" | "i = 1" | "i = 2" | "i = 3"
      by linarith
    then show ?thesis
      by cases simp_all
  next
    case False
    then obtain j where j: "i = 4 + j"
      by (metis le_Suc_ex not_less)
    from "1.prems" j have len: "length rest mod 4 = 0" and lt: "j < length rest"
      by simp_all
    have "i div 4 = j div 4 + 1" and "i mod 4 = j mod 4"
      using j by simp_all
    then have idx: "4 * (i div 4) + (3 - i mod 4) = 4 + (4 * (j div 4) + (3 - j mod 4))"
      by presburger
    have "swap_groups (a # b # c # d # rest) ! i = swap_groups rest ! j"
      unfolding j swap_groups.simps(1) by (rule nth_skip_group)
    also have "\<dots> = rest ! (4 * (j div 4) + (3 - j mod 4))"
      by (rule "1.IH" [OF len lt])
    also have "\<dots> = (a # b # c # d # rest) ! (4 * (i div 4) + (3 - i mod 4))"
      unfolding idx by (rule nth_skip_group [symmetric])
    finally show ?thesis .
  qed
qed simp_all

text \<open>
  Claim C2. For a buffer whose length is a multiple of 4, swapped over its whole length,
  a second swap gives the original bytes back.
\<close>

theorem SwapBuffer_involution:
  assumes "length buffer = unat sz" and "unat sz mod 4 = 0"
  shows "VL53L5CX_SwapBuffer (VL53L5CX_SwapBuffer buffer sz) sz = buffer"
proof -
  have "VL53L5CX_SwapBuffer buffer sz = swap_groups buffer"
    using assms(1) by (simp add: VL53L5CX_SwapBuffer_def)
  moreover have "VL53L5CX_SwapBuffer (swap_groups buffer) sz = swap_groups (swap_groups buffer)"
    using assms(1) by (simp add: VL53L5CX_SwapBuffer_def length_swap_groups)
  ultimately show ?thesis
    by (simp add: swap_groups_twice)
qed

theorem SwapBuffer_involution_witness:
  "length [1, 2, 3, 4 :: byte] = unat (4 :: 16 word) \<and> unat (4 :: 16 word) mod 4 = 0 \<and>
   VL53L5CX_SwapBuffer [1, 2, 3, 4] 4 = [4, 3, 2, 1] \<and>
   VL53L5CX_SwapBuffer (VL53L5CX_SwapBuffer [1, 2, 3, 4] 4) 4 = [1, 2, 3, 4]"
proof -
  have l: "length [1, 2, 3, 4 :: byte] = unat (4 :: 16 word)" by simp
  have m: "unat (4 :: 16 word) mod 4 = 0" by simp
  have "VL53L5CX_SwapBuffer [1, 2, 3, 4] 4 = [4, 3, 2, 1]"
    by (simp add: VL53L5CX_SwapBuffer_def)
  with l m SwapBuffer_involution [OF l m] show ?thesis
    by simp
qed

text \<open>
  Claim C3. For a size that is a multiple of 4, the swap keeps the length and reverses
  each 4-byte group on its own: the byte that ends at offset \<open>r\<close> of group \<open>g\<close> is the
  one that was at offset \<open>3 - r\<close> of the same group. The 12-byte buffer
  \<open>[A,B,C,D,E,F,G,H,I,J,K,L]\<close> becomes \<open>[D,C,B,A,H,G,F,E,L,K,J,I]\<close>.
\<close>

theorem SwapBuffer_reverses_groups:
  assumes "length buffer = unat sz" and "unat sz mod 4 = 0"
  shows "length (VL53L5CX_SwapBuffer buffer sz) = length buffer \<and>
         (\<forall>i < unat sz.
            VL53L5CX_SwapBuffer buffer sz ! i = buffer ! (4 * (i div 4) + (3 - i mod 4))) \<and>
         VL53L5CX_SwapBuffer [A, B, C, D, E, F, G, H, I, J, K, L] 12
           = [D, C, B, A, H, G, F, E, L, K, J, I]"
proof (intro conjI allI impI)
  show "length (VL53L5CX_SwapBuffer buffer sz) = length buffer"
    by (rule length_SwapBuffer)
next
  fix i
  assume i: "i < unat sz"
  have "VL53L5CX_SwapBuffer buffer sz = swap_groups buffer"
    using assms(1) by (simp add: VL53L5CX_SwapBuffer_def)
  moreover have "swap_groups buffer ! i = buffer ! (4 * (i div 4) + (3 - i mod 4))"
    using assms i by (intro swap_groups_nth) simp_all
  ultimately show "VL53L5CX_SwapBuffer buffer sz ! i = buffer ! (4 * (i div 4) + (3 - i mod 4))"
    by simp
next
  show "VL53L5CX_SwapBuffer [A, B, C, D, E, F, G, H, I, J, K, L] 12
          = [D, C, B, A, H, G, F, E, L, K, J, I]"
    by (simp add: VL53L5CX_SwapBuffer_def)
qed

theorem SwapBuffer_reverses_groups_witness:
  "length [10, 11, 12, 13, 20, 21, 22, 23 :: byte] = unat (8 :: 16 word) \<and>
   unat (8 :: 16 word) mod 4 = 0 \<and>
   VL53L5CX_SwapBuffer [10, 11, 12, 13, 20, 21, 22, 23] 8 ! 5 = 22 \<and>
   VL53L5CX_SwapBuffer [10, 11, 12, 13, 20, 21, 22, 23] 8 = [13, 12, 11, 10, 23, 22, 21, 20]"
proof -
  have l: "length [10, 11, 12, 13, 20, 21, 22, 23 :: byte] = unat (8 :: 16 word)" by simp
  have m: "unat (8 :: 16 word) mod 4 = 0" by simp
  have "VL53L5CX_SwapBuffer [10, 11, 12, 13, 20, 21, 22, 23] 8 ! 5
          = [10, 11, 12, 13, 20, 21, 22, 23 :: byte] ! (4 * (5 div 4) + (3 - 5 mod 4))"
    using SwapBuffer_reverses_groups [OF l m] by simp
  moreover have "VL53L5CX_SwapBuffer [10, 11, 12, 13, 20, 21, 22, 23] 8
                   = [13, 12, 11, 10, 23, 22, 21, 20]"
    by (simp add: VL53L5CX_SwapBuffer_def)
  ultimately show ?thesis
    by simp
qed

subsection \<open>Multi-byte transfers\<close>

lemma rd_loop_frame:
  "rd_loop rd n i p addr out = (p', out', st) \<Longrightarrow>
     length out' = length out \<and> take i out' = take i out \<and> drop (i + n) out' = drop (i + n) out"
proof (induction n arbitrary: i p addr out)
  case 0
  then show ?case by simp
next
  case (Suc n)
  show ?case
  proof (cases "rd p addr")
    case None
    with Suc.prems show ?thesis by simp
  next
    case (Some r)
    obtain q b where r: "r = (q, b)" by (cases r)
    from Suc.prems Some r
    have "rd_loop rd n (Suc i) q (addr + 1) (out[i := b]) = (p', out', st)"
      by simp
    from Suc.IH [OF this]
    have "length out' = length out" and t: "take (Suc i) out' = take (Suc i) (out[i := b])"
      and "drop (Suc i + n) out' = drop (Suc i + n) (out[i := b])"
      by simp_all
    moreover have "take i out' = take i out"
    proof -
      have "take i out' = take i (take (Suc i) out')" by (simp add: min_def)
      also have "\<dots> = take i (take (Suc i) (out[i := b]))" by (simp only: t)
      also have "\<dots> = take i out" by (simp add: min_def)
      finally show ?thesis .
    qed
    ultimately show ?thesis by simp
  qed
qed

lemma wr_loop_reads_prefix:
  "i + n \<le> length vals \<Longrightarrow> i + n \<le> length vals' \<Longrightarrow> take (i + n) vals = take (i + n) vals' \<Longrightarrow>
     wr_loop wr n i p addr vals = wr_loop wr n i p addr vals'"
proof (induction n arbitrary: i p addr)
  case 0
  then show ?case by simp
next
  case (Suc n)
  have "vals ! i = take (i + Suc n) vals ! i" by simp
  also have "\<dots> = take (i + Suc n) vals' ! i" by (simp only: Suc.prems(3))
  also have "\<dots> = vals' ! i" by simp
  finally have eq: "vals ! i = vals' ! i" .
  have "wr_loop wr n (Suc i) q (addr + 1) vals = wr_loop wr n (Suc i) q (addr + 1) vals'" for q
    using Suc.prems by (intro Suc.IH) simp_all
  with eq show ?case
    by (simp split: option.splits)
qed

text \<open>
  Claim C7. Read-multiple leaves the length of the buffer and every byte from index
  \<open>size\<close> on as they were; write-multiple reads nothing behind the first \<open>size\<close> bytes
  (two buffers that agree there give the same result); with \<open>size\<close> 0 both leave the
  platform state and the buffer as they were and return status 0.
\<close>

theorem multi_transfers_stay_within_size:
  assumes "unat sz \<le> length p_out"
    and "unat sz \<le> length p_values" and "unat sz \<le> length p_values'"
    and "take (unat sz) p_values = take (unat sz) p_values'"
  shows "length (fst (snd (VL53L5CX_RdMulti rd p addr p_out sz))) = length p_out \<and>
         drop (unat sz) (fst (snd (VL53L5CX_RdMulti rd p addr p_out sz))) = drop (unat sz) p_out \<and>
         (\<forall>j. unat sz \<le> j \<and> j < length p_out \<longrightarrow>
            fst (snd (VL53L5CX_RdMulti rd p addr p_out sz)) ! j = p_out ! j) \<and>
         VL53L5CX_WrMulti wr q addr p_values sz = VL53L5CX_WrMulti wr q addr p_values' sz \<and>
         VL53L5CX_RdMulti rd p addr p_out 0 = (p, p_out, 0) \<and>
         VL53L5CX_WrMulti wr q addr p_values 0 = (q, 0)"
proof -
  obtain p' out' st where r: "VL53L5CX_RdMulti rd p addr p_out sz = (p', out', st)"
    by (cases "VL53L5CX_RdMulti rd p addr p_out sz")
  then have "rd_loop rd (unat sz) 0 p addr p_out = (p', out', st)"
    by (simp add: VL53L5CX_RdMulti_def)
  from rd_loop_frame [OF this]
  have len: "length out' = length p_out" and dr: "drop (unat sz) out' = drop (unat sz) p_out"
    by simp_all
  have nth: "out' ! j = p_out ! j" if "unat sz \<le> j" "j < length p_out" for j
  proof -
    from that len have "out' ! j = drop (unat sz) out' ! (j - unat sz)" by simp
    also have "\<dots> = drop (unat sz) p_out ! (j - unat sz)" by (simp only: dr)
    also from that have "\<dots> = p_out ! j" by simp
    finally show ?thesis .
  qed
  have "VL53L5CX_WrMulti wr q addr p_values sz = VL53L5CX_WrMulti wr q addr p_values' sz"
    unfolding VL53L5CX_WrMulti_def using assms(2-4) by (intro wr_loop_reads_prefix) simp_all
  with r len dr nth show ?thesis
    by (simp add: VL53L5CX_RdMulti_def VL53L5CX_WrMulti_def)
qed

theorem multi_transfers_stay_within_size_witness:
  "unat (2 :: 32 word) \<le> length [9, 9, 9, 9 :: byte] \<and>
   unat (2 :: 32 word) \<le> length [1, 2, 3, 4 :: byte] \<and>
   unat (2 :: 32 word) \<le> length [1, 2, 7 :: byte] \<and>
   take (unat (2 :: 32 word)) [1, 2, 3, 4 :: byte] = take (unat (2 :: 32 word)) [1, 2, 7] \<and>
   VL53L5CX_RdMulti echo_rd 0 16 [9, 9, 9, 9] 2 = (2, [16, 17, 9, 9], 0) \<and>
   drop (unat (2 :: 32 word)) (fst (snd (VL53L5CX_RdMulti echo_rd 0 16 [9, 9, 9, 9] 2))) = [9, 9] \<and>
   VL53L5CX_WrMulti log_wr [] 16 [1, 2, 3, 4] 2 = VL53L5CX_WrMulti log_wr [] 16 [1, 2, 7] 2 \<and>
   VL53L5CX_RdMulti echo_rd 0 16 [9, 9, 9, 9] 0 = (0, [9, 9, 9, 9], 0) \<and>
   VL53L5CX_WrMulti log_wr [] 16 [1, 2, 3, 4] 0 = ([], 0)"
proof -
  have a: "unat (2 :: 32 word) \<le> length [9, 9, 9, 9 :: byte]" by simp
  have b: "unat (2 :: 32 word) \<le> length [1, 2, 3, 4 :: byte]" by simp
  have c: "unat (2 :: 32 word) \<le> length [1, 2, 7 :: byte]" by simp
  have d: "take (unat (2 :: 32 word)) [1, 2, 3, 4 :: byte] = take (unat (2 :: 32 word)) [1, 2, 7]"
    by simp
  have u: "unat (2 :: 32 word) = Suc (Suc 0)" by simp
  have e: "VL53L5CX_RdMulti echo_rd 0 16 [9, 9, 9, 9] 2 = (2, [16, 17, 9, 9], 0)"
    unfolding VL53L5CX_RdMulti_def u by (simp add: echo_rd_def)
  from multi_transfers_stay_within_size [OF a b c d, of echo_rd 0 16 log_wr "[]"] a b c d e
  show ?thesis
    by simp
qed

subsection \<open>Wait\<close>

lemma ms_completed_le: "ms_completed delay n p \<le> n"
  by (induction n arbitrary: p) (simp_all split: option.splits)

lemma wait_loop_status: "snd (wait_loop delay n p) = 0 \<or> snd (wait_loop delay n p) = 255"
  by (induction n arbitrary: p) (simp_all split: option.splits)

lemma wait_loop_finished:
  "snd (wait_loop delay n p) = 0 \<longleftrightarrow> ms_completed delay n p = n"
  by (induction n arbitrary: p) (simp_all split: option.splits)

lemma wait_loop_elapsed:
  assumes "\<And>s s'. delay s = Some s' \<Longrightarrow> now s + 1 \<le> now s'"
  shows "now p + ms_completed delay n p \<le> now (fst (wait_loop delay n p))"
proof (induction n arbitrary: p)
  case 0
  then show ?case by simp
next
  case (Suc n)
  show ?case
  proof (cases "delay p")
    case None
    then show ?thesis by simp
  next
    case (Some p')
    from assms [OF Some] have "now p + 1 \<le> now p'" .
    moreover have "now p' + ms_completed delay n p' \<le> now (fst (wait_loop delay n p'))"
      by (rule Suc.IH)
    ultimately show ?thesis
      using Some by simp
  qed
qed

text \<open>
  Claim C8. Called with 0, the wait returns at once, the platform state (and with it the
  clock) as it was, with status 0, whatever the timer. For any input, on a timer whose
  every completed millisecond advances the clock by at least 1: when the status is 0
  the clock has advanced by at least \<open>ms\<close>; the status is 0 exactly when the timer
  completed all \<open>ms\<close> milliseconds, and non-zero exactly when it completed fewer; in
  either case the clock has advanced by at least the milliseconds completed.
\<close>

theorem WaitMs_blocks_for_duration:
  assumes "\<And>s s'. delay s = Some s' \<Longrightarrow> now s + 1 \<le> now s'"
  shows "VL53L5CX_WaitMs delay p 0 = (p, 0) \<and>
         (snd (VL53L5CX_WaitMs delay p ms) = 0 \<longrightarrow>
            now p + unat ms \<le> now (fst (VL53L5CX_WaitMs delay p ms))) \<and>
         (snd (VL53L5CX_WaitMs delay p ms) = 0 \<longleftrightarrow>
            ms_completed delay (unat ms) p = unat ms) \<and>
         (snd (VL53L5CX_WaitMs delay p ms) \<noteq> 0 \<longleftrightarrow>
            ms_completed delay (unat ms) p < unat ms) \<and>
         now p + ms_completed delay (unat ms) p \<le> now (fst (VL53L5CX_WaitMs delay p ms))"
proof -
  have z: "VL53L5CX_WaitMs delay p 0 = (p, 0)"
    by (simp add: VL53L5CX_WaitMs_def)
  have fin: "snd (VL53L5CX_WaitMs delay p ms) = 0 \<longleftrightarrow> ms_completed delay (unat ms) p = unat ms"
    by (simp add: VL53L5CX_WaitMs_def wait_loop_finished)
  have el: "now p + ms_completed delay (unat ms) p \<le> now (fst (VL53L5CX_WaitMs delay p ms))"
    unfolding VL53L5CX_WaitMs_def using assms by (rule wait_loop_elapsed)
  have le: "ms_completed delay (unat ms) p \<le> unat ms"
    by (rule ms_completed_le)
  from z fin el le show ?thesis
    by auto
qed

theorem WaitMs_blocks_for_duration_witness:
  "VL53L5CX_WaitMs worn_timer 0 0 = (0, 0) \<and>
   VL53L5CX_WaitMs worn_timer 0 2 = (4, 0) \<and>
   (0 :: nat) + unat (2 :: 32 word) \<le> fst (VL53L5CX_WaitMs worn_timer 0 2) \<and>
   ms_completed worn_timer (unat (2 :: 32 word)) 0 = unat (2 :: 32 word) \<and>
   VL53L5CX_WaitMs worn_timer 0 4 = (6, 255) \<and>
   ms_completed worn_timer (unat (4 :: 32 word)) 0 < unat (4 :: 32 word) \<and>
   VL53L5CX_WaitMs dead_timer (7 :: nat) 0 = (7, 0)"
proof -
  have t: "worn_timer s = Some s' \<Longrightarrow> id s + 1 \<le> id s'" for s s'
    by (simp add: worn_timer_def split: if_splits)
  have u2: "unat (2 :: 32 word) = Suc (Suc 0)" by simp
  have u4: "unat (4 :: 32 word) = Suc (Suc (Suc (Suc 0)))" by simp
  have a: "VL53L5CX_WaitMs worn_timer 0 2 = (4, 0)"
    unfolding VL53L5CX_WaitMs_def u2 by (simp add: worn_timer_def)
  have b: "VL53L5CX_WaitMs worn_timer 0 4 = (6, 255)"
    unfolding VL53L5CX_WaitMs_def u4 by (simp add: worn_timer_def)
  from WaitMs_blocks_for_duration [of worn_timer id, OF t, of 0 2]
    WaitMs_blocks_for_duration [of worn_timer id, OF t, of 0 4]
    WaitMs_blocks_for_duration [of dead_timer id 7 0] a b
  show ?thesis
    by (simp add: dead_timer_def)
qed

end
